theory Spec2Isabelle
  imports Main
begin

section \<open>Registers, wires and errors\<close>

text \<open>
  A quantum register is a named, fixed-size sequence of wires; a wire (qubit) is
  identified by its register and its offset in it. The circuit library refuses two
  registers of the same name in one circuit, so the registers of one circuit have
  pairwise different names. The type admits a register of size 0; the theorems on the
  outcome of a build take the six registers non-empty.
\<close>

datatype QuantumRegister = QuantumRegister (name: string) (size_of: nat)

datatype Qubit = Qubit QuantumRegister nat

text \<open>
  The exceptions the construction can raise: Python's \<open>IndexError\<close> (indexing a
  register beyond its size), the circuit library's \<open>CircuitError\<close> (wrong number of
  wires for a gate, arguments that cannot be combined, a wire used twice in one
  operation) and the \<open>AttributeError\<close> of \<open>_check_configuration\<close>.
\<close>

datatype error = IndexError | CircuitError | AttributeError

section \<open>Primitive operations and their meaning on basis states\<close>

text \<open>
  The operations the source appends: \<open>cx\<close> (invert the target conditioned on one
  control), \<open>ccx\<close> (invert the target conditioned on two controls), \<open>swap\<close> and
  \<open>reset\<close>. The type parameter is the kind of wire reference: offsets into the
  gate's own register inside a gate definition, qubits in a circuit.
\<close>

datatype 'q gateop = CX 'q 'q | CCX 'q 'q 'q | SWAP 'q 'q | RESET 'q

text \<open>
  Modelled from the spec: the simulator (an external collaborator, not part of the
  repository) applies the operations in sequence; on a computational basis state, a map
  from wires to bits, each operation acts as the spec's data model describes it.
\<close>

fun apply_op :: "'q gateop \<Rightarrow> ('q \<Rightarrow> bool) \<Rightarrow> ('q \<Rightarrow> bool)" where
  "apply_op (CX c t) s = s(t := (s t \<noteq> s c))"
| "apply_op (CCX c1 c2 t) s = s(t := (s t \<noteq> (s c1 \<and> s c2)))"
| "apply_op (SWAP a b) s = s(a := s b, b := s a)"
| "apply_op (RESET t) s = s(t := False)"

definition run_ops :: "'q gateop list \<Rightarrow> ('q \<Rightarrow> bool) \<Rightarrow> ('q \<Rightarrow> bool)" where
  "run_ops ops s = fold apply_op ops s"

text \<open>The wires an operation can change: inversion targets, swap operands, reset targets.\<close>

fun targets :: "'q gateop \<Rightarrow> 'q set" where
  "targets (CX c t) = {t}"
| "targets (CCX c1 c2 t) = {t}"
| "targets (SWAP a b) = {a, b}"
| "targets (RESET t) = {t}"

definition zero_state :: "'q \<Rightarrow> bool" where
  "zero_state q = False"

definition majority :: "bool \<Rightarrow> bool \<Rightarrow> bool \<Rightarrow> bool" where
  "majority a b c = ((a \<and> b) \<or> (a \<and> c) \<or> (b \<and> c))"

section \<open>The gates HalfAdder and FullAdder\<close>

text \<open>
  A gate has a name, a number of wires, and a definition: a circuit over its own
  register \<open>q\<close> of that many wires, written with offsets into \<open>q\<close>.
\<close>

record Gate =
  gate_name :: string
  num_qubits :: nat
  gate_definition :: "nat gateop list"

text \<open>\<open>HalfAdder.__init__\<close> and \<open>HalfAdder._define\<close>: wires (a, b, sum, carry).\<close>

definition HalfAdder :: Gate where
  "HalfAdder =
     \<lparr>gate_name = ''halfAdder'', num_qubits = 4,
      gate_definition = [CX 0 2, CX 1 2, CCX 0 1 3]\<rparr>"

text \<open>
  \<open>FullAdder.__init__\<close> and \<open>FullAdder._define\<close>: wires
  (a, b, cin, cout, sum, ancilla1, ancilla2, ancilla3).
\<close>

definition FullAdder :: Gate where
  "FullAdder =
     \<lparr>gate_name = ''fullAdder'', num_qubits = 8,
      gate_definition =
        [CX 0 5, CX 1 5,
         CX 2 4, CX 5 4,
         CCX 0 1 6,
         CCX 2 5 7,
         CX 7 3, CX 6 3, CCX 7 6 3]\<rparr>"

section \<open>Circuits under construction\<close>

text \<open>
  The data of a circuit is the sequence of its instructions: a primitive operation on
  qubits, or a gate bound to a list of qubits. Executing a bound gate executes the
  operations of its definition, each offset replaced by the qubit bound to it.
\<close>

datatype Instruction = Prim "Qubit gateop" | Bound Gate "Qubit list"

fun decompose :: "Instruction \<Rightarrow> Qubit gateop list" where
  "decompose (Prim g) = [g]"
| "decompose (Bound g qs) = map (map_gateop (\<lambda>i. qs ! i)) (gate_definition g)"

definition flatten :: "Instruction list \<Rightarrow> Qubit gateop list" where
  "flatten prog = concat (map decompose prog)"

definition run :: "Instruction list \<Rightarrow> (Qubit \<Rightarrow> bool) \<Rightarrow> (Qubit \<Rightarrow> bool)" where
  "run prog s = run_ops (flatten prog) s"

text \<open>
  Construction mutates the circuit and may raise. A construction step takes the data
  built so far and returns its result or the exception raised, together with the data
  as the step leaves it: what was appended before an exception stays appended.
\<close>

type_synonym 'a build = "Instruction list \<Rightarrow> (error + 'a) \<times> Instruction list"

definition return_b :: "'a \<Rightarrow> 'a build" where
  "return_b x d = (Inr x, d)"

definition raise_b :: "error \<Rightarrow> 'a build" where
  "raise_b e d = (Inl e, d)"

definition bind_b :: "'a build \<Rightarrow> ('a \<Rightarrow> 'b build) \<Rightarrow> 'b build" where
  "bind_b m f d = (case m d of (Inl e, d') \<Rightarrow> (Inl e, d') | (Inr x, d') \<Rightarrow> f x d')"

text \<open>\<open>for i in xs: body(i)\<close>\<close>

fun for_loop :: "nat list \<Rightarrow> (nat \<Rightarrow> unit build) \<Rightarrow> unit build" where
  "for_loop [] body = return_b ()"
| "for_loop (i # is) body = bind_b (body i) (\<lambda>_. for_loop is body)"

text \<open>\<open>register[i]\<close> for a non-negative index: Python raises IndexError out of range.\<close>

definition getitem :: "QuantumRegister \<Rightarrow> nat \<Rightarrow> Qubit build" where
  "getitem r i = (if i < size_of r then return_b (Qubit r i) else raise_b IndexError)"

text \<open>All the wires of a register, in order: what a register stands for as a gate argument.\<close>

definition bits :: "QuantumRegister \<Rightarrow> Qubit list" where
  "bits r = map (Qubit r) [0..<size_of r]"

text \<open>
  Modelled from the spec: the circuit library's methods \<open>cx\<close>, \<open>swap\<close> and
  \<open>reset\<close>, which are not part of the repository. Each appends one operation on the
  wires given. The library raises its CircuitError for an operation that names one wire
  twice, which cannot happen between different registers of one circuit.
\<close>

definition cx :: "Qubit \<Rightarrow> Qubit \<Rightarrow> unit build" where
  "cx c t d = (if c = t then (Inl CircuitError, d) else (Inr (), d @ [Prim (CX c t)]))"

definition swap :: "Qubit \<Rightarrow> Qubit \<Rightarrow> unit build" where
  "swap a b d = (if a = b then (Inl CircuitError, d) else (Inr (), d @ [Prim (SWAP a b)]))"

text \<open>\<open>reset(qs)\<close> with a list of qubits appends one reset for each.\<close>

definition reset :: "Qubit list \<Rightarrow> unit build" where
  "reset qs d = (Inr (), d @ map (\<lambda>q. Prim (RESET q)) qs)"

text \<open>
  Modelled from the spec: \<open>append(gate, qargs)\<close> of the circuit library, which is not
  part of the repository, for a gate of three or more wires. It fails when the number of
  arguments is not the gate's number of wires (the check the spec describes). Beyond
  that it follows the library: each argument stands for a list of qubits (a qubit for
  itself, a register for all its wires); it fails when an argument is empty and when the
  arguments differ in length; otherwise it appends one instance of the gate for each
  position of the argument lists (\<open>zip(*qargs)\<close>), one after the other, and fails at
  the first instance that would get a wire twice.
\<close>

definition zip_args :: "Qubit list list \<Rightarrow> Qubit list list" where
  "zip_args qargs = map (\<lambda>k. map (\<lambda>qarg. qarg ! k) qargs) [0..<length (hd qargs)]"

fun append_instances :: "Gate \<Rightarrow> Qubit list list \<Rightarrow> unit build" where
  "append_instances g [] d = (Inr (), d)"
| "append_instances g (qs # qss) d =
     (if distinct qs then append_instances g qss (d @ [Bound g qs])
      else (Inl CircuitError, d))"

definition append_gate :: "Gate \<Rightarrow> Qubit list list \<Rightarrow> unit build" where
  "append_gate g qargs d =
     (if length qargs \<noteq> num_qubits g then (Inl CircuitError, d)
      else if \<exists>qarg \<in> set qargs. qarg = [] then (Inl CircuitError, d)
      else if \<exists>qarg \<in> set qargs. length qarg \<noteq> length (hd qargs) then (Inl CircuitError, d)
      else append_instances g (zip_args qargs) d)"

section \<open>The N-bit ALU\<close>

text \<open>
  \<open>NQubitALU\<close> keeps its six registers, the operand width \<open>_num_qubits\<close> (unset
  until the setter of \<open>num_qubits\<close> runs) and the data of the circuit.
\<close>

record NQubitALU =
  registerA :: QuantumRegister
  registerB :: QuantumRegister
  registerS :: QuantumRegister
  registerSB :: QuantumRegister
  registerC :: QuantumRegister
  registerAncilla :: QuantumRegister
  alu_num_qubits :: "nat option"
  data :: "Instruction list"

text \<open>
  \<open>NQubitALU.__init__\<close>: stores the registers and sets \<open>num_qubits\<close> to the size of
  register A; the data is empty until the circuit is built. No width is compared.
\<close>

definition NQubitALU_init ::
  "QuantumRegister \<Rightarrow> QuantumRegister \<Rightarrow> QuantumRegister \<Rightarrow> QuantumRegister \<Rightarrow>
   QuantumRegister \<Rightarrow> QuantumRegister \<Rightarrow> NQubitALU" where
  "NQubitALU_init rA rB rS rSB rC rAnc =
     \<lparr>registerA = rA, registerB = rB, registerS = rS, registerSB = rSB,
      registerC = rC, registerAncilla = rAnc,
      alu_num_qubits = Some (size_of rA), data = []\<rparr>"

text \<open>\<open>NQubitALU._check_configuration\<close>\<close>

definition check_configuration :: "NQubitALU \<Rightarrow> bool \<Rightarrow> error + bool" where
  "check_configuration alu raise_on_failure =
     (if alu_num_qubits alu = None
      then (if raise_on_failure then Inl AttributeError else Inr False)
      else Inr True)"

text \<open>
  An argument of \<open>append\<close> as the source writes it: \<open>register[i]\<close> or a whole
  register. A list of arguments is evaluated from left to right; the first index out of
  range raises.
\<close>

datatype qarg = At QuantumRegister nat | Whole QuantumRegister

fun eval_qarg :: "qarg \<Rightarrow> Qubit list build" where
  "eval_qarg (At r i) = bind_b (getitem r i) (\<lambda>q. return_b [q])"
| "eval_qarg (Whole r) = return_b (bits r)"

fun eval_qargs :: "qarg list \<Rightarrow> Qubit list list build" where
  "eval_qargs [] = return_b []"
| "eval_qargs (a # as) =
     bind_b (eval_qarg a) (\<lambda>q. bind_b (eval_qargs as) (\<lambda>qs. return_b (q # qs)))"

text \<open>
  The first loop of \<open>NQubitALU._build\<close> (the conditional negation of register B): for
  each wire of B, two controlled inversions into the first ancilla wire, a swap, and a
  reset of that ancilla wire.
\<close>

definition negate_body ::
  "QuantumRegister \<Rightarrow> QuantumRegister \<Rightarrow> QuantumRegister \<Rightarrow> nat \<Rightarrow> unit build" where
  "negate_body qr_B qr_SB qr_ancilla B_index =
     bind_b (getitem qr_B B_index) (\<lambda>b. bind_b (getitem qr_ancilla 0) (\<lambda>anc.
     bind_b (cx b anc) (\<lambda>_.
     bind_b (getitem qr_SB 0) (\<lambda>sb. bind_b (getitem qr_ancilla 0) (\<lambda>anc.
     bind_b (cx sb anc) (\<lambda>_.
     bind_b (getitem qr_B B_index) (\<lambda>b. bind_b (getitem qr_ancilla 0) (\<lambda>anc.
     bind_b (swap b anc) (\<lambda>_.
     bind_b (getitem qr_ancilla 0) (\<lambda>anc. reset [anc]))))))))))"

definition negate_stage ::
  "QuantumRegister \<Rightarrow> QuantumRegister \<Rightarrow> QuantumRegister \<Rightarrow> unit build" where
  "negate_stage qr_B qr_SB qr_ancilla =
     for_loop [0..<size_of qr_B] (negate_body qr_B qr_SB qr_ancilla)"

text \<open>The three resets that follow each full adder.\<close>

definition reset_ancillas :: "QuantumRegister \<Rightarrow> unit build" where
  "reset_ancillas qr_ancilla =
     bind_b (getitem qr_ancilla 0) (\<lambda>anc. bind_b (reset [anc]) (\<lambda>_.
     bind_b (getitem qr_ancilla 1) (\<lambda>anc. bind_b (reset [anc]) (\<lambda>_.
     bind_b (getitem qr_ancilla 2) (\<lambda>anc. reset [anc])))))"

text \<open>
  The second loop of \<open>NQubitALU._build\<close>: one full adder for each wire of A. At index 0
  the carry-in argument is the register SB itself; at a later index it is the carry wire
  of the index before. The \<open>print\<close> of the second branch reads the same wires in the
  same order as the argument list after it, so it raises where the list would.
\<close>

definition adder_body ::
  "QuantumRegister \<Rightarrow> QuantumRegister \<Rightarrow> QuantumRegister \<Rightarrow> QuantumRegister \<Rightarrow>
   QuantumRegister \<Rightarrow> QuantumRegister \<Rightarrow> nat \<Rightarrow> unit build" where
  "adder_body qr_A qr_B qr_S qr_SB qr_carry qr_ancilla A_index =
     (if A_index = 0 then
        bind_b (eval_qargs [At qr_A A_index, At qr_B A_index, Whole qr_SB,
                            At qr_carry A_index, At qr_S A_index,
                            At qr_ancilla 0, At qr_ancilla 1, At qr_ancilla 2]) (\<lambda>qargs.
        bind_b (append_gate FullAdder qargs) (\<lambda>_. reset_ancillas qr_ancilla))
      else
        bind_b (eval_qargs [At qr_A A_index, At qr_B A_index, At qr_carry (A_index - 1),
                            At qr_carry A_index, At qr_S A_index,
                            At qr_ancilla 0, At qr_ancilla 1, At qr_ancilla 2]) (\<lambda>qargs.
        bind_b (append_gate FullAdder qargs) (\<lambda>_. reset_ancillas qr_ancilla)))"

definition adder_stage ::
  "QuantumRegister \<Rightarrow> QuantumRegister \<Rightarrow> QuantumRegister \<Rightarrow> QuantumRegister \<Rightarrow>
   QuantumRegister \<Rightarrow> QuantumRegister \<Rightarrow> unit build" where
  "adder_stage qr_A qr_B qr_S qr_SB qr_carry qr_ancilla =
     for_loop [0..<size_of qr_A] (adder_body qr_A qr_B qr_S qr_SB qr_carry qr_ancilla)"

text \<open>
  \<open>NQubitALU._build\<close>: the inherited \<open>_build\<close> runs \<open>_check_configuration\<close>, then
  the two loops append to the circuit's data. An exception leaves the circuit with
  what was appended before it.
\<close>

definition build :: "NQubitALU \<Rightarrow> (error + unit) \<times> NQubitALU" where
  "build alu =
     (case check_configuration alu True of
        Inl e \<Rightarrow> (Inl e, alu)
      | Inr _ \<Rightarrow>
          (case bind_b (negate_stage (registerB alu) (registerSB alu) (registerAncilla alu))
                  (\<lambda>_. adder_stage (registerA alu) (registerB alu) (registerS alu)
                          (registerSB alu) (registerC alu) (registerAncilla alu))
                  (data alu) of
             (r, d) \<Rightarrow> (r, alu\<lparr>data := d\<rparr>)))"

text \<open>
  The driver (\<open>__main__\<close>): six registers of sizes N, N, N, 1, N, 3 with N = 3, named by
  the library in the order of their creation; A[0] and B[0] are inverted before the ALU
  runs. The inversion of SB is commented out in the source; \<open>sb\<close> says whether it is
  done.
\<close>

definition main_registers :: "QuantumRegister list" where
  "main_registers =
     [QuantumRegister ''q0'' 3, QuantumRegister ''q1'' 3, QuantumRegister ''q2'' 3,
      QuantumRegister ''q3'' 1, QuantumRegister ''q4'' 3, QuantumRegister ''q5'' 3]"

definition main_alu :: NQubitALU where
  "main_alu =
     NQubitALU_init (main_registers ! 0) (main_registers ! 1) (main_registers ! 2)
       (main_registers ! 3) (main_registers ! 4) (main_registers ! 5)"

definition main_initial_state :: "bool \<Rightarrow> Qubit \<Rightarrow> bool" where
  "main_initial_state sb =
     zero_state(Qubit (registerA main_alu) 0 := True,
                Qubit (registerB main_alu) 0 := True,
                Qubit (registerSB main_alu) 0 := sb)"

text \<open>The value of a register in a state, least significant wire first.\<close>

definition reg_value :: "(Qubit \<Rightarrow> bool) \<Rightarrow> QuantumRegister \<Rightarrow> bool list" where
  "reg_value s r = map s (bits r)"

section \<open>The programs the two loops append\<close>

text \<open>The four operations one round of the first loop appends.\<close>

definition negate_ops ::
  "QuantumRegister \<Rightarrow> QuantumRegister \<Rightarrow> QuantumRegister \<Rightarrow> nat \<Rightarrow> Instruction list" where
  "negate_ops qr_B qr_SB qr_ancilla i =
     [Prim (CX (Qubit qr_B i) (Qubit qr_ancilla 0)),
      Prim (CX (Qubit qr_SB 0) (Qubit qr_ancilla 0)),
      Prim (SWAP (Qubit qr_B i) (Qubit qr_ancilla 0)),
      Prim (RESET (Qubit qr_ancilla 0))]"

text \<open>The full adder and the three resets one round of the second loop appends.\<close>

definition adder_ops ::
  "QuantumRegister \<Rightarrow> QuantumRegister \<Rightarrow> QuantumRegister \<Rightarrow> QuantumRegister \<Rightarrow>
   QuantumRegister \<Rightarrow> QuantumRegister \<Rightarrow> nat \<Rightarrow> Instruction list" where
  "adder_ops qr_A qr_B qr_S qr_SB qr_carry qr_ancilla i =
     [Bound FullAdder
        [Qubit qr_A i, Qubit qr_B i,
         (if i = 0 then Qubit qr_SB 0 else Qubit qr_carry (i - 1)),
         Qubit qr_carry i, Qubit qr_S i,
         Qubit qr_ancilla 0, Qubit qr_ancilla 1, Qubit qr_ancilla 2],
      Prim (RESET (Qubit qr_ancilla 0)),
      Prim (RESET (Qubit qr_ancilla 1)),
      Prim (RESET (Qubit qr_ancilla 2))]"

text \<open>A register inverted wire by wire where the control wire is set.\<close>

definition xor_register :: "QuantumRegister \<Rightarrow> Qubit \<Rightarrow> (Qubit \<Rightarrow> bool) \<Rightarrow> (Qubit \<Rightarrow> bool)" where
  "xor_register r c s = (\<lambda>q. if q \<in> set (bits r) then s q \<noteq> s c else s q)"

text \<open>The wires of an 8-wire register, as \<open>FullAdder._define\<close> names them.\<close>

definition fa_wires :: "Qubit list" where
  "fa_wires = bits (QuantumRegister ''q'' 8)"

section \<open>Helper lemmas\<close>

lemma run_Nil [simp]: "run [] s = s"
  by (simp add: run_def flatten_def run_ops_def)

lemma run_append: "run (p @ p') s = run p' (run p s)"
  by (simp add: run_def flatten_def run_ops_def)

lemma run_Cons: "run (i # p) s = run p (run_ops (decompose i) s)"
  by (simp add: run_def flatten_def run_ops_def)

lemma zip_args_singletons: "qs \<noteq> [] \<Longrightarrow> zip_args (map (\<lambda>q. [q]) qs) = [qs]"
  by (cases qs) (simp_all add: zip_args_def comp_def)

lemma append_gate_singletons:
  assumes "length qs = num_qubits g" "0 < num_qubits g" "distinct qs"
  shows "append_gate g (map (\<lambda>q. [q]) qs) d = (Inr (), d @ [Bound g qs])"
proof -
  have ne: "qs \<noteq> []" using assms by auto
  show ?thesis using assms ne
    by (auto simp add: append_gate_def zip_args_singletons [OF ne] hd_map)
qed

lemma append_gate_arity:
  "length qargs \<noteq> num_qubits g \<Longrightarrow> append_gate g qargs d = (Inl CircuitError, d)"
  by (simp add: append_gate_def)

lemma decompose_HalfAdder:
  "decompose (Bound HalfAdder [a, b, sm, carry]) = [CX a sm, CX b sm, CCX a b carry]"
  by (simp add: HalfAdder_def)

lemma decompose_FullAdder:
  "decompose (Bound FullAdder [a, b, cin, cout, sm, s1, s2, s3]) =
     [CX a s1, CX b s1, CX cin sm, CX s1 sm, CCX a b s2, CCX cin s1 s3,
      CX s3 cout, CX s2 cout, CCX s3 s2 cout]"
  by (simp add: FullAdder_def)

lemma run_FullAdder:
  assumes "distinct [a, b, cin, cout, sm, s1, s2, s3]"
    and "\<not> s s1" "\<not> s s2" "\<not> s s3"
  shows "run [Bound FullAdder [a, b, cin, cout, sm, s1, s2, s3]] s =
     s(s1 := (s a \<noteq> s b), sm := (s sm \<noteq> ((s a \<noteq> s b) \<noteq> s cin)),
       s2 := (s a \<and> s b), s3 := (s cin \<and> (s a \<noteq> s b)),
       cout := (s cout \<noteq> majority (s a) (s b) (s cin)))"
  using assms unfolding run_Cons decompose_FullAdder run_ops_def
  by (auto simp add: fun_eq_iff majority_def)

lemma run_HalfAdder:
  assumes "distinct [a, b, sm, carry]"
  shows "run [Bound HalfAdder [a, b, sm, carry]] s =
     s(sm := (s sm \<noteq> (s a \<noteq> s b)), carry := (s carry \<noteq> (s a \<and> s b)))"
  using assms unfolding run_Cons decompose_HalfAdder run_ops_def
  by (auto simp add: fun_eq_iff)


lemma bind_b_Inr: "m d = (Inr x, d') \<Longrightarrow> bind_b m f d = f x d'"
  by (simp add: bind_b_def)

lemma bind_b_Inl: "m d = (Inl e, d') \<Longrightarrow> bind_b m f d = (Inl e, d')"
  by (simp add: bind_b_def)

lemmas build_simps = bind_b_def return_b_def raise_b_def getitem_def cx_def swap_def reset_def

lemma negate_body_ok:
  assumes "i < size_of qr_B" "0 < size_of qr_ancilla" "0 < size_of qr_SB"
    and "qr_B \<noteq> qr_ancilla" "qr_SB \<noteq> qr_ancilla"
  shows "negate_body qr_B qr_SB qr_ancilla i d = (Inr (), d @ negate_ops qr_B qr_SB qr_ancilla i)"
  using assms by (simp add: negate_body_def negate_ops_def build_simps)

lemma for_loop_ok:
  "(\<And>i d. i \<in> set xs \<Longrightarrow> body i d = (Inr (), d @ f i)) \<Longrightarrow>
   for_loop xs body d = (Inr (), d @ concat (map f xs))"
  by (induction xs arbitrary: d) (simp_all add: return_b_def bind_b_def)

lemma for_loop_fail:
  "i \<in> set xs \<Longrightarrow> (\<And>d. fst (body i d) \<noteq> Inr ()) \<Longrightarrow> fst (for_loop xs body d) \<noteq> Inr ()"
proof (induction xs arbitrary: d)
  case Nil
  then show ?case by simp
next
  case (Cons x xs)
  show ?case
  proof (cases "body x d")
    case (Pair r d')
    show ?thesis
    proof (cases r)
      case (Inl e)
      with Pair show ?thesis by (simp add: bind_b_def)
    next
      case (Inr u)
      with Pair Cons.prems(2) [of d] have "x \<noteq> i" by auto
      with Cons.prems(1) have "i \<in> set xs" by simp
      from Cons.IH [OF this Cons.prems(2)] Pair Inr show ?thesis
        by (simp add: bind_b_def)
    qed
  qed
qed

lemma negate_stage_ok:
  assumes "0 < size_of qr_B \<longrightarrow> 0 < size_of qr_ancilla \<and> 0 < size_of qr_SB"
    and "qr_B \<noteq> qr_ancilla" "qr_SB \<noteq> qr_ancilla"
  shows "negate_stage qr_B qr_SB qr_ancilla d =
     (Inr (), d @ concat (map (negate_ops qr_B qr_SB qr_ancilla) [0..<size_of qr_B]))"
  unfolding negate_stage_def using assms
  by (intro for_loop_ok negate_body_ok) auto

lemma run_negate_ops:
  assumes "qr_B \<noteq> qr_ancilla" "qr_SB \<noteq> qr_ancilla" "\<not> s (Qubit qr_ancilla 0)"
  shows "run (negate_ops qr_B qr_SB qr_ancilla i) s =
     s(Qubit qr_B i := (s (Qubit qr_B i) \<noteq> s (Qubit qr_SB 0)))"
  using assms by (auto simp add: negate_ops_def run_def flatten_def run_ops_def fun_eq_iff)

lemma run_negate_upto:
  assumes "qr_B \<noteq> qr_ancilla" "qr_SB \<noteq> qr_ancilla" "qr_B \<noteq> qr_SB" "\<not> s (Qubit qr_ancilla 0)"
  shows "run (concat (map (negate_ops qr_B qr_SB qr_ancilla) [0..<n])) s =
     (\<lambda>q. if q \<in> Qubit qr_B ` {0..<n} then s q \<noteq> s (Qubit qr_SB 0) else s q)"
proof (induction n)
  case 0
  then show ?case by simp
next
  case (Suc n)
  let ?s = "\<lambda>q. if q \<in> Qubit qr_B ` {0..<n} then s q \<noteq> s (Qubit qr_SB 0) else s q"
  have anc: "\<not> ?s (Qubit qr_ancilla 0)" using assms by auto
  have "run (concat (map (negate_ops qr_B qr_SB qr_ancilla) [0..<Suc n])) s =
        run (negate_ops qr_B qr_SB qr_ancilla n) ?s"
    by (simp add: run_append Suc.IH)
  also have "\<dots> = ?s(Qubit qr_B n := (?s (Qubit qr_B n) \<noteq> ?s (Qubit qr_SB 0)))"
    using assms(1,2) anc by (rule run_negate_ops)
  also have "\<dots> = (\<lambda>q. if q \<in> Qubit qr_B ` {0..<Suc n} then s q \<noteq> s (Qubit qr_SB 0) else s q)"
    using assms(3) by (auto simp add: fun_eq_iff less_Suc_eq)
  finally show ?case .
qed

lemma set_bits: "set (bits r) = Qubit r ` {0..<size_of r}"
  by (simp add: bits_def)

lemma run_negate_stage:
  assumes "qr_B \<noteq> qr_ancilla" "qr_SB \<noteq> qr_ancilla" "qr_B \<noteq> qr_SB" "\<not> s (Qubit qr_ancilla 0)"
  shows "run (concat (map (negate_ops qr_B qr_SB qr_ancilla) [0..<size_of qr_B])) s =
     xor_register qr_B (Qubit qr_SB 0) s"
proof -
  have "run (concat (map (negate_ops qr_B qr_SB qr_ancilla) [0..<size_of qr_B])) s =
     (\<lambda>q. if q \<in> Qubit qr_B ` {0..<size_of qr_B} then s q \<noteq> s (Qubit qr_SB 0) else s q)"
    using assms by (rule run_negate_upto)
  then show ?thesis by (simp add: xor_register_def set_bits)
qed


lemma xor_register_twice:
  "c \<notin> set (bits r) \<Longrightarrow> xor_register r c (xor_register r c s) = s"
  by (auto simp add: xor_register_def fun_eq_iff)

lemma names_distinct6:
  "distinct (map name [r1, r2, r3, r4, r5, r6]) \<Longrightarrow> distinct [r1, r2, r3, r4, r5, r6]"
  by auto

lemma bits_single: "size_of r = 1 \<Longrightarrow> bits r = [Qubit r 0]"
  by (simp add: bits_def)

lemma reset_ancillas_ok:
  "3 \<le> size_of qr_ancilla \<Longrightarrow>
   reset_ancillas qr_ancilla d =
     (Inr (), d @ [Prim (RESET (Qubit qr_ancilla 0)), Prim (RESET (Qubit qr_ancilla 1)),
                   Prim (RESET (Qubit qr_ancilla 2))])"
  by (simp add: reset_ancillas_def build_simps)

lemma adder_body_ok:
  assumes "distinct [qr_A, qr_B, qr_S, qr_SB, qr_carry, qr_ancilla]"
    and "i < size_of qr_A" "i < size_of qr_B" "i < size_of qr_S" "i < size_of qr_carry"
    and "3 \<le> size_of qr_ancilla" "i = 0 \<longrightarrow> size_of qr_SB = 1"
  shows "adder_body qr_A qr_B qr_S qr_SB qr_carry qr_ancilla i d =
     (Inr (), d @ adder_ops qr_A qr_B qr_S qr_SB qr_carry qr_ancilla i)"
proof -
  let ?qs = "[Qubit qr_A i, Qubit qr_B i,
         (if i = 0 then Qubit qr_SB 0 else Qubit qr_carry (i - 1)),
         Qubit qr_carry i, Qubit qr_S i,
         Qubit qr_ancilla 0, Qubit qr_ancilla 1, Qubit qr_ancilla 2]"
  have ev: "eval_qargs [At qr_A i, At qr_B i, (if i = 0 then Whole qr_SB else At qr_carry (i - 1)),
                            At qr_carry i, At qr_S i,
                            At qr_ancilla 0, At qr_ancilla 1, At qr_ancilla 2] d =
      (Inr (map (\<lambda>q. [q]) ?qs), d)"
    using assms by (auto simp add: build_simps bits_single)
  have ap: "append_gate FullAdder (map (\<lambda>q. [q]) ?qs) d = (Inr (), d @ [Bound FullAdder ?qs])"
    using assms by (intro append_gate_singletons) (auto simp add: FullAdder_def)
  show ?thesis
  proof (cases "i = 0")
    case True
    with ev ap assms(6) show ?thesis
      by (simp add: adder_body_def adder_ops_def bind_b_Inr reset_ancillas_ok)
  next
    case False
    with ev ap assms(6) show ?thesis
      by (simp add: adder_body_def adder_ops_def bind_b_Inr reset_ancillas_ok)
  qed
qed


lemma adder_body_fail:
  assumes "\<not> (i < size_of qr_A \<and> i < size_of qr_B \<and> i < size_of qr_S \<and> i < size_of qr_carry \<and>
              3 \<le> size_of qr_ancilla \<and> (i = 0 \<longrightarrow> size_of qr_SB = 1))"
  shows "adder_body qr_A qr_B qr_S qr_SB qr_carry qr_ancilla i d = (Inl IndexError, d) \<or>
         adder_body qr_A qr_B qr_S qr_SB qr_carry qr_ancilla i d = (Inl CircuitError, d)"
proof (cases "i < size_of qr_A \<and> i < size_of qr_B \<and> i < size_of qr_S \<and> i < size_of qr_carry \<and>
              3 \<le> size_of qr_ancilla")
  case True
  with assms have i: "i = 0" and sb: "size_of qr_SB \<noteq> 1" by auto
  have ev: "eval_qargs [At qr_A 0, At qr_B 0, Whole qr_SB, At qr_carry 0, At qr_S 0,
                        At qr_ancilla 0, At qr_ancilla 1, At qr_ancilla 2] d =
      (Inr [[Qubit qr_A 0], [Qubit qr_B 0], bits qr_SB, [Qubit qr_carry 0], [Qubit qr_S 0],
            [Qubit qr_ancilla 0], [Qubit qr_ancilla 1], [Qubit qr_ancilla 2]], d)"
    using True i by (auto simp add: build_simps)
  have "append_gate FullAdder [[Qubit qr_A 0], [Qubit qr_B 0], bits qr_SB, [Qubit qr_carry 0],
            [Qubit qr_S 0], [Qubit qr_ancilla 0], [Qubit qr_ancilla 1], [Qubit qr_ancilla 2]] d =
        (Inl CircuitError, d)"
    using sb by (simp add: append_gate_def FullAdder_def bits_def)
  with ev i show ?thesis
    by (simp add: adder_body_def bind_b_Inr bind_b_Inl)
next
  case False
  then show ?thesis
    by (auto simp add: adder_body_def build_simps)
qed

lemma negate_body_no_ancilla:
  "i < size_of qr_B \<Longrightarrow> size_of qr_ancilla = 0 \<Longrightarrow>
   negate_body qr_B qr_SB qr_ancilla i d = (Inl IndexError, d)"
  by (simp add: negate_body_def build_simps)

lemma negate_body_no_SB:
  "i < size_of qr_B \<Longrightarrow> 0 < size_of qr_ancilla \<Longrightarrow> size_of qr_SB = 0 \<Longrightarrow> qr_B \<noteq> qr_ancilla \<Longrightarrow>
   negate_body qr_B qr_SB qr_ancilla i d =
     (Inl IndexError, d @ [Prim (CX (Qubit qr_B i) (Qubit qr_ancilla 0))])"
  by (simp add: negate_body_def build_simps)

lemma bind_b_fst_ok:
  "fst (bind_b m f d) = Inr y \<longleftrightarrow> (\<exists>x. fst (m d) = Inr x \<and> fst (f x (snd (m d))) = Inr y)"
  by (cases "m d") (auto simp add: bind_b_def split: sum.splits)

lemma negate_stage_fail:
  assumes "0 < size_of qr_B" "\<not> (0 < size_of qr_ancilla \<and> 0 < size_of qr_SB)"
    and "qr_B \<noteq> qr_ancilla"
  shows "fst (negate_stage qr_B qr_SB qr_ancilla d) \<noteq> Inr ()"
  unfolding negate_stage_def
proof (rule for_loop_fail [of 0])
  show "0 \<in> set [0..<size_of qr_B]" using assms(1) by simp
next
  fix d
  show "fst (negate_body qr_B qr_SB qr_ancilla 0 d) \<noteq> Inr ()"
  proof (cases "0 < size_of qr_ancilla")
    case True
    with assms show ?thesis by (simp add: negate_body_no_SB)
  next
    case False
    with assms show ?thesis by (simp add: negate_body_no_ancilla)
  qed
qed

lemma adder_stage_ok:
  assumes "distinct [qr_A, qr_B, qr_S, qr_SB, qr_carry, qr_ancilla]"
    and "0 < size_of qr_A \<longrightarrow> size_of qr_A \<le> size_of qr_B \<and> size_of qr_A \<le> size_of qr_S \<and>
           size_of qr_A \<le> size_of qr_carry \<and> 3 \<le> size_of qr_ancilla \<and> size_of qr_SB = 1"
  shows "adder_stage qr_A qr_B qr_S qr_SB qr_carry qr_ancilla d =
     (Inr (), d @ concat (map (adder_ops qr_A qr_B qr_S qr_SB qr_carry qr_ancilla)
                            [0..<size_of qr_A]))"
  unfolding adder_stage_def
proof (rule for_loop_ok)
  fix i d
  assume "i \<in> set [0..<size_of qr_A]"
  then have "i < size_of qr_A" by simp
  with assms show "adder_body qr_A qr_B qr_S qr_SB qr_carry qr_ancilla i d =
      (Inr (), d @ adder_ops qr_A qr_B qr_S qr_SB qr_carry qr_ancilla i)"
    by (intro adder_body_ok) auto
qed

lemma adder_stage_fail:
  assumes "0 < size_of qr_A"
    and "\<not> (size_of qr_A \<le> size_of qr_B \<and> size_of qr_A \<le> size_of qr_S \<and>
           size_of qr_A \<le> size_of qr_carry \<and> 3 \<le> size_of qr_ancilla \<and> size_of qr_SB = 1)"
  shows "fst (adder_stage qr_A qr_B qr_S qr_SB qr_carry qr_ancilla d) \<noteq> Inr ()"
proof -
  define k where "k = (if 3 \<le> size_of qr_ancilla \<and> size_of qr_SB = 1
    then min (size_of qr_B) (min (size_of qr_S) (size_of qr_carry)) else 0)"
  have k: "k < size_of qr_A" using assms by (auto simp add: k_def)
  have bad: "\<not> (k < size_of qr_A \<and> k < size_of qr_B \<and> k < size_of qr_S \<and> k < size_of qr_carry \<and>
              3 \<le> size_of qr_ancilla \<and> (k = 0 \<longrightarrow> size_of qr_SB = 1))"
    using assms by (auto simp add: k_def)
  show ?thesis
    unfolding adder_stage_def
  proof (rule for_loop_fail [of k])
    show "k \<in> set [0..<size_of qr_A]" using k by simp
  next
    fix d
    from adder_body_fail [OF bad, of d]
    show "fst (adder_body qr_A qr_B qr_S qr_SB qr_carry qr_ancilla k d) \<noteq> Inr ()" by auto
  qed
qed

lemma stages_ok_iff:
  assumes "distinct [qr_A, qr_B, qr_S, qr_SB, qr_carry, qr_ancilla]"
  shows "fst (bind_b (negate_stage qr_B qr_SB qr_ancilla)
                (\<lambda>_. adder_stage qr_A qr_B qr_S qr_SB qr_carry qr_ancilla) d) = Inr () \<longleftrightarrow>
     (0 < size_of qr_B \<longrightarrow> 0 < size_of qr_ancilla \<and> 0 < size_of qr_SB) \<and>
     (0 < size_of qr_A \<longrightarrow> size_of qr_A \<le> size_of qr_B \<and> size_of qr_A \<le> size_of qr_S \<and>
           size_of qr_A \<le> size_of qr_carry \<and> 3 \<le> size_of qr_ancilla \<and> size_of qr_SB = 1)"
    (is "?ok \<longleftrightarrow> ?neg \<and> ?add")
proof
  assume ok: ?ok
  have ne: "qr_B \<noteq> qr_ancilla" using assms by auto
  have ?neg
  proof (rule ccontr)
    assume "\<not> ?neg"
    then have "fst (negate_stage qr_B qr_SB qr_ancilla d) \<noteq> Inr ()"
      using ne by (intro negate_stage_fail) auto
    with ok show False by (simp add: bind_b_fst_ok)
  qed
  moreover have ?add
  proof (rule ccontr)
    assume "\<not> ?add"
    then have "fst (adder_stage qr_A qr_B qr_S qr_SB qr_carry qr_ancilla
                 (snd (negate_stage qr_B qr_SB qr_ancilla d))) \<noteq> Inr ()"
      by (intro adder_stage_fail) auto
    with ok show False by (simp add: bind_b_fst_ok)
  qed
  ultimately show "?neg \<and> ?add" ..
next
  assume c: "?neg \<and> ?add"
  have "negate_stage qr_B qr_SB qr_ancilla d =
     (Inr (), d @ concat (map (negate_ops qr_B qr_SB qr_ancilla) [0..<size_of qr_B]))"
    using c assms by (intro negate_stage_ok) auto
  moreover have "fst (adder_stage qr_A qr_B qr_S qr_SB qr_carry qr_ancilla
      (d @ concat (map (negate_ops qr_B qr_SB qr_ancilla) [0..<size_of qr_B]))) = Inr ()"
    using c assms by (subst adder_stage_ok) auto
  ultimately show ?ok by (simp add: bind_b_fst_ok)
qed


lemma stages_ok_data:
  assumes "distinct [qr_A, qr_B, qr_S, qr_SB, qr_carry, qr_ancilla]"
    and "fst (bind_b (negate_stage qr_B qr_SB qr_ancilla)
                (\<lambda>_. adder_stage qr_A qr_B qr_S qr_SB qr_carry qr_ancilla) d) = Inr ()"
  shows "bind_b (negate_stage qr_B qr_SB qr_ancilla)
                (\<lambda>_. adder_stage qr_A qr_B qr_S qr_SB qr_carry qr_ancilla) d =
     (Inr (), d @ concat (map (negate_ops qr_B qr_SB qr_ancilla) [0..<size_of qr_B]) @
                  concat (map (adder_ops qr_A qr_B qr_S qr_SB qr_carry qr_ancilla)
                            [0..<size_of qr_A]))"
proof -
  from assms have c: "(0 < size_of qr_B \<longrightarrow> 0 < size_of qr_ancilla \<and> 0 < size_of qr_SB) \<and>
     (0 < size_of qr_A \<longrightarrow> size_of qr_A \<le> size_of qr_B \<and> size_of qr_A \<le> size_of qr_S \<and>
           size_of qr_A \<le> size_of qr_carry \<and> 3 \<le> size_of qr_ancilla \<and> size_of qr_SB = 1)"
    by (simp add: stages_ok_iff)
  have "negate_stage qr_B qr_SB qr_ancilla d =
     (Inr (), d @ concat (map (negate_ops qr_B qr_SB qr_ancilla) [0..<size_of qr_B]))"
    using c assms(1) by (intro negate_stage_ok) auto
  then show ?thesis
    using c assms(1) by (simp add: bind_b_Inr adder_stage_ok)
qed

lemma build_init:
  "build (NQubitALU_init qr_A qr_B qr_S qr_SB qr_carry qr_ancilla) =
     (fst (bind_b (negate_stage qr_B qr_SB qr_ancilla)
                (\<lambda>_. adder_stage qr_A qr_B qr_S qr_SB qr_carry qr_ancilla) []),
      (NQubitALU_init qr_A qr_B qr_S qr_SB qr_carry qr_ancilla)
        \<lparr>data := snd (bind_b (negate_stage qr_B qr_SB qr_ancilla)
                (\<lambda>_. adder_stage qr_A qr_B qr_S qr_SB qr_carry qr_ancilla) [])\<rparr>)"
  by (simp add: build_def NQubitALU_init_def check_configuration_def split: prod.splits)

lemma apply_op_frame: "q \<notin> targets g \<Longrightarrow> apply_op g s q = s q"
  by (cases g) auto

lemma run_ops_frame: "(\<And>g. g \<in> set ops \<Longrightarrow> q \<notin> targets g) \<Longrightarrow> run_ops ops s q = s q"
  unfolding run_ops_def
  by (induction ops arbitrary: s) (simp_all add: apply_op_frame)

lemma negate_ops_targets:
  "g \<in> set (flatten (negate_ops qr_B qr_SB qr_ancilla i)) \<Longrightarrow>
   targets g \<subseteq> {Qubit qr_B i, Qubit qr_ancilla 0}"
  by (auto simp add: flatten_def negate_ops_def)

lemma adder_ops_targets:
  "g \<in> set (flatten (adder_ops qr_A qr_B qr_S qr_SB qr_carry qr_ancilla i)) \<Longrightarrow>
   targets g \<subseteq> {Qubit qr_carry i, Qubit qr_S i,
                 Qubit qr_ancilla 0, Qubit qr_ancilla 1, Qubit qr_ancilla 2}"
  by (auto simp add: flatten_def adder_ops_def FullAdder_def)

lemma flatten_append: "flatten (p @ p') = flatten p @ flatten p'"
  by (simp add: flatten_def)

lemma flatten_concat: "set (flatten (concat ps)) = (\<Union>p \<in> set ps. set (flatten p))"
  by (induction ps) (simp_all add: flatten_append, simp add: flatten_def)

lemma program_targets:
  assumes "g \<in> set (flatten (concat (map (negate_ops qr_B qr_SB qr_ancilla) [0..<n]) @
                  concat (map (adder_ops qr_A qr_B qr_S qr_SB qr_carry qr_ancilla) [0..<m])))"
    and "Qubit r j \<in> targets g"
  shows "r \<in> {qr_B, qr_S, qr_carry, qr_ancilla}"
proof -
  from assms(1) consider i where "g \<in> set (flatten (negate_ops qr_B qr_SB qr_ancilla i))"
    | i where "g \<in> set (flatten (adder_ops qr_A qr_B qr_S qr_SB qr_carry qr_ancilla i))"
    by (auto simp add: flatten_append flatten_concat)
  then show ?thesis
  proof cases
    case 1
    from negate_ops_targets [OF this] assms(2) show ?thesis by auto
  next
    case 2
    from adder_ops_targets [OF this] assms(2) show ?thesis by auto
  qed
qed


lemma negate_stage_names:
  assumes "distinct (map name [qr_B, qr_SB, qr_ancilla])"
    and "0 < size_of qr_SB" and "0 < size_of qr_ancilla"
  shows "negate_stage qr_B qr_SB qr_ancilla d =
     (Inr (), d @ concat (map (negate_ops qr_B qr_SB qr_ancilla) [0..<size_of qr_B]))"
  using assms by (intro negate_stage_ok) auto

lemma run_negate_stage_names:
  assumes "distinct (map name [qr_B, qr_SB, qr_ancilla])"
    and "\<not> s (Qubit qr_ancilla 0)"
  shows "run (concat (map (negate_ops qr_B qr_SB qr_ancilla) [0..<size_of qr_B])) s =
     xor_register qr_B (Qubit qr_SB 0) s"
  using assms by (intro run_negate_stage) auto

lemma main_build:
  "build main_alu =
     (Inr (), main_alu\<lparr>data :=
        concat (map (negate_ops (QuantumRegister ''q1'' 3) (QuantumRegister ''q3'' 1)
                       (QuantumRegister ''q5'' 3)) [0, 1, 2]) @
        concat (map (adder_ops (QuantumRegister ''q0'' 3) (QuantumRegister ''q1'' 3)
                       (QuantumRegister ''q2'' 3) (QuantumRegister ''q3'' 1)
                       (QuantumRegister ''q4'' 3) (QuantumRegister ''q5'' 3)) [0, 1, 2])\<rparr>)"
proof -
  have d: "distinct [QuantumRegister ''q0'' 3, QuantumRegister ''q1'' 3,
      QuantumRegister ''q2'' 3, QuantumRegister ''q3'' 1, QuantumRegister ''q4'' 3,
      QuantumRegister ''q5'' 3]"
    by simp
  have ok: "fst (bind_b (negate_stage (QuantumRegister ''q1'' 3) (QuantumRegister ''q3'' 1)
                       (QuantumRegister ''q5'' 3))
      (\<lambda>_. adder_stage (QuantumRegister ''q0'' 3) (QuantumRegister ''q1'' 3)
                       (QuantumRegister ''q2'' 3) (QuantumRegister ''q3'' 1)
                       (QuantumRegister ''q4'' 3) (QuantumRegister ''q5'' 3)) []) = Inr ()"
    using stages_ok_iff [OF d, of "[]"] by simp
  have upt3: "[0..<3] = [0, 1, 2]" by (simp add: upt_rec)
  show ?thesis
    using stages_ok_data [OF d ok]
    by (simp add: main_alu_def main_registers_def build_init upt3)
qed

lemmas main_eval = main_alu_def main_registers_def NQubitALU_init_def reg_value_def bits_def
  upt_rec negate_ops_def adder_ops_def run_def flatten_def run_ops_def FullAdder_def
  main_initial_state_def zero_state_def

lemma adder_body_index_error:
  assumes "\<not> (i < size_of qr_A \<and> i < size_of qr_B \<and> i < size_of qr_S \<and> i < size_of qr_carry \<and>
              3 \<le> size_of qr_ancilla)"
  shows "adder_body qr_A qr_B qr_S qr_SB qr_carry qr_ancilla i d = (Inl IndexError, d)"
  using assms by (auto simp add: adder_body_def build_simps)

lemma adder_body_circuit_error:
  assumes "0 < size_of qr_A" "0 < size_of qr_B" "0 < size_of qr_S" "0 < size_of qr_carry"
    and "3 \<le> size_of qr_ancilla" "size_of qr_SB \<noteq> 1"
  shows "adder_body qr_A qr_B qr_S qr_SB qr_carry qr_ancilla 0 d = (Inl CircuitError, d)"
proof -
  have ev: "eval_qargs [At qr_A 0, At qr_B 0, Whole qr_SB, At qr_carry 0, At qr_S 0,
                        At qr_ancilla 0, At qr_ancilla 1, At qr_ancilla 2] d =
      (Inr [[Qubit qr_A 0], [Qubit qr_B 0], bits qr_SB, [Qubit qr_carry 0], [Qubit qr_S 0],
            [Qubit qr_ancilla 0], [Qubit qr_ancilla 1], [Qubit qr_ancilla 2]], d)"
    using assms by (auto simp add: build_simps)
  have "append_gate FullAdder [[Qubit qr_A 0], [Qubit qr_B 0], bits qr_SB, [Qubit qr_carry 0],
            [Qubit qr_S 0], [Qubit qr_ancilla 0], [Qubit qr_ancilla 1], [Qubit qr_ancilla 2]] d =
        (Inl CircuitError, d)"
    using assms(6) by (simp add: append_gate_def FullAdder_def bits_def)
  with ev show ?thesis
    by (simp add: adder_body_def bind_b_Inr bind_b_Inl)
qed

lemma for_loop_stop:
  assumes "\<And>i d. i \<in> set xs \<Longrightarrow> body i d = (Inr (), d @ f i)"
    and "body k (d @ concat (map f xs)) = (Inl e, d')"
  shows "for_loop (xs @ k # ys) body d = (Inl e, d')"
  using assms
proof (induction xs arbitrary: d)
  case Nil
  then show ?case by (simp add: bind_b_def)
next
  case (Cons x xs)
  have "for_loop (xs @ k # ys) body (d @ f x) = (Inl e, d')"
    using Cons.prems by (intro Cons.IH) simp_all
  then show ?case
    using Cons.prems(1) [of x d] by (simp add: bind_b_def)
qed

lemma upt_split: "k < n \<Longrightarrow> [0..<n] = [0..<k] @ k # [Suc k..<n]"
  using upt_add_eq_append [of 0 k "n - k"] by (simp add: upt_conv_Cons)

lemma adder_stage_stop:
  assumes "distinct [qr_A, qr_B, qr_S, qr_SB, qr_carry, qr_ancilla]"
    and "k < size_of qr_A" "k \<le> size_of qr_B" "k \<le> size_of qr_S" "k \<le> size_of qr_carry"
    and "0 < k \<longrightarrow> 3 \<le> size_of qr_ancilla \<and> size_of qr_SB = 1"
    and "\<And>d. adder_body qr_A qr_B qr_S qr_SB qr_carry qr_ancilla k d = (Inl e, d)"
  shows "adder_stage qr_A qr_B qr_S qr_SB qr_carry qr_ancilla d =
     (Inl e, d @ concat (map (adder_ops qr_A qr_B qr_S qr_SB qr_carry qr_ancilla) [0..<k]))"
  unfolding adder_stage_def upt_split [OF assms(2)]
proof (rule for_loop_stop)
  fix i d
  assume "i \<in> set [0..<k]"
  then have "i < k" by simp
  with assms(1-6) show "adder_body qr_A qr_B qr_S qr_SB qr_carry qr_ancilla i d =
      (Inr (), d @ adder_ops qr_A qr_B qr_S qr_SB qr_carry qr_ancilla i)"
    by (intro adder_body_ok) auto
next
  show "adder_body qr_A qr_B qr_S qr_SB qr_carry qr_ancilla k
     (d @ concat (map (adder_ops qr_A qr_B qr_S qr_SB qr_carry qr_ancilla) [0..<k])) =
    (Inl e, d @ concat (map (adder_ops qr_A qr_B qr_S qr_SB qr_carry qr_ancilla) [0..<k]))"
    by (rule assms(7))
qed

lemma stages_failed:
  assumes d: "distinct [qr_A, qr_B, qr_S, qr_SB, qr_carry, qr_ancilla]"
    and nz: "0 < size_of qr_A" "0 < size_of qr_B" "0 < size_of qr_S" "0 < size_of qr_SB"
      "0 < size_of qr_carry" "0 < size_of qr_ancilla"
    and bad: "\<not> (3 \<le> size_of qr_ancilla \<and> size_of qr_SB = 1 \<and> size_of qr_A \<le> size_of qr_B \<and>
      size_of qr_A \<le> size_of qr_S \<and> size_of qr_A \<le> size_of qr_carry)"
  shows "bind_b (negate_stage qr_B qr_SB qr_ancilla)
           (\<lambda>_. adder_stage qr_A qr_B qr_S qr_SB qr_carry qr_ancilla) d0 =
     (Inl (if 3 \<le> size_of qr_ancilla \<and> size_of qr_SB \<noteq> 1 then CircuitError else IndexError),
      d0 @ concat (map (negate_ops qr_B qr_SB qr_ancilla) [0..<size_of qr_B]) @
        concat (map (adder_ops qr_A qr_B qr_S qr_SB qr_carry qr_ancilla)
          [0..<(if size_of qr_ancilla < 3 \<or> size_of qr_SB \<noteq> 1 then 0
                else min (size_of qr_B) (min (size_of qr_S) (size_of qr_carry)))]))"
proof -
  let ?neg = "concat (map (negate_ops qr_B qr_SB qr_ancilla) [0..<size_of qr_B])"
  have neg: "negate_stage qr_B qr_SB qr_ancilla d0 = (Inr (), d0 @ ?neg)"
    using d nz by (intro negate_stage_ok) auto
  consider (anc) "size_of qr_ancilla < 3"
    | (sb) "3 \<le> size_of qr_ancilla" "size_of qr_SB \<noteq> 1"
    | (narrow) "3 \<le> size_of qr_ancilla" "size_of qr_SB = 1"
    by linarith
  then show ?thesis
  proof cases
    case anc
    have "adder_stage qr_A qr_B qr_S qr_SB qr_carry qr_ancilla (d0 @ ?neg) =
        (Inl IndexError, (d0 @ ?neg) @
          concat (map (adder_ops qr_A qr_B qr_S qr_SB qr_carry qr_ancilla) [0..<0]))"
      using d nz anc by (intro adder_stage_stop adder_body_index_error) auto
    with neg anc show ?thesis by (simp add: bind_b_def)
  next
    case sb
    have "adder_stage qr_A qr_B qr_S qr_SB qr_carry qr_ancilla (d0 @ ?neg) =
        (Inl CircuitError, (d0 @ ?neg) @
          concat (map (adder_ops qr_A qr_B qr_S qr_SB qr_carry qr_ancilla) [0..<0]))"
      using d nz sb by (intro adder_stage_stop adder_body_circuit_error) auto
    with neg sb show ?thesis by (simp add: bind_b_def)
  next
    case narrow
    let ?k = "min (size_of qr_B) (min (size_of qr_S) (size_of qr_carry))"
    from bad narrow have k: "?k < size_of qr_A" by auto
    have "adder_stage qr_A qr_B qr_S qr_SB qr_carry qr_ancilla (d0 @ ?neg) =
        (Inl IndexError, (d0 @ ?neg) @
          concat (map (adder_ops qr_A qr_B qr_S qr_SB qr_carry qr_ancilla) [0..<?k]))"
      using d k narrow by (intro adder_stage_stop adder_body_index_error) auto
    with neg narrow show ?thesis by (simp add: bind_b_def)
  qed
qed

section \<open>HalfAdder and FullAdder\<close>

text \<open>
  C5. Binding HalfAdder to four distinct wires (a, b, sum, carry) appends one instance of
  the gate, which stands for exactly the three operations: invert sum controlled by a,
  invert sum controlled by b, invert carry controlled by a and b. With the sum and
  carry wires 0 on entry, the instance leaves sum = a XOR b and carry = a AND b and
  changes no other wire.
\<close>

theorem HalfAdder_correct:
  assumes "distinct [a, b, sm, carry]" and "\<not> s sm" and "\<not> s carry"
  shows "append_gate HalfAdder [[a], [b], [sm], [carry]] d =
           (Inr (), d @ [Bound HalfAdder [a, b, sm, carry]]) \<and>
         decompose (Bound HalfAdder [a, b, sm, carry]) = [CX a sm, CX b sm, CCX a b carry] \<and>
         run [Bound HalfAdder [a, b, sm, carry]] s =
           s(sm := (s a \<noteq> s b), carry := (s a \<and> s b))"
proof -
  have "append_gate HalfAdder (map (\<lambda>q. [q]) [a, b, sm, carry]) d =
      (Inr (), d @ [Bound HalfAdder [a, b, sm, carry]])"
    using assms(1) by (intro append_gate_singletons) (simp_all add: HalfAdder_def)
  moreover have "run [Bound HalfAdder [a, b, sm, carry]] s =
      s(sm := (s a \<noteq> s b), carry := (s a \<and> s b))"
    using assms by (simp add: run_HalfAdder)
  ultimately show ?thesis
    using decompose_HalfAdder [of a b sm carry] by simp
qed

theorem HalfAdder_correct_witness:
  "run [Bound HalfAdder (take 4 fa_wires)] (zero_state(fa_wires ! 0 := True, fa_wires ! 1 := True)) =
     (zero_state(fa_wires ! 0 := True, fa_wires ! 1 := True))
       (fa_wires ! 2 := False, fa_wires ! 3 := True)"
  using HalfAdder_correct [of "fa_wires ! 0" "fa_wires ! 1" "fa_wires ! 2" "fa_wires ! 3"
      "zero_state(fa_wires ! 0 := True, fa_wires ! 1 := True)" "[]"]
  by (simp add: fa_wires_def bits_def zero_state_def upt_rec)

text \<open>
  C1, as stated, asks only for the three scratch wires to be 0 on entry. The full adder
  inverts the sum and carry-out wires, it does not overwrite them: with the sum wire 1 on
  entry and a = b = cin = 0, the sum wire ends 1, not a XOR b XOR cin = 0.
\<close>

theorem FullAdder_sum_counterexample:
  "\<not> (zero_state(fa_wires ! 4 := True)) (fa_wires ! 5) \<and>
   \<not> (zero_state(fa_wires ! 4 := True)) (fa_wires ! 6) \<and>
   \<not> (zero_state(fa_wires ! 4 := True)) (fa_wires ! 7) \<and>
   append_gate FullAdder [[fa_wires ! 0], [fa_wires ! 1], [fa_wires ! 2], [fa_wires ! 3],
       [fa_wires ! 4], [fa_wires ! 5], [fa_wires ! 6], [fa_wires ! 7]] [] =
     (Inr (), [Bound FullAdder fa_wires]) \<and>
   run [Bound FullAdder fa_wires] (zero_state(fa_wires ! 4 := True)) (fa_wires ! 4) \<noteq>
     (((zero_state(fa_wires ! 4 := True)) (fa_wires ! 0) \<noteq>
       (zero_state(fa_wires ! 4 := True)) (fa_wires ! 1)) \<noteq>
      (zero_state(fa_wires ! 4 := True)) (fa_wires ! 2))"
  by (simp add: fa_wires_def bits_def zero_state_def upt_rec append_gate_def zip_args_def
      FullAdder_def run_def flatten_def run_ops_def)

text \<open>
  C1, amended. Binding FullAdder to eight distinct wires
  (a, b, cin, cout, sum, scratch1, scratch2, scratch3) appends one instance of the gate.
  With the three scratch wires and the sum and cout wires 0 on entry, executing it
  leaves sum = a XOR b XOR cin and cout = majority(a, b, cin).
\<close>

theorem FullAdder_correct:
  assumes "distinct [a, b, cin, cout, sm, s1, s2, s3]"
    and "\<not> s s1" and "\<not> s s2" and "\<not> s s3"
    and "\<not> s sm" and "\<not> s cout"
  shows "append_gate FullAdder [[a], [b], [cin], [cout], [sm], [s1], [s2], [s3]] d =
           (Inr (), d @ [Bound FullAdder [a, b, cin, cout, sm, s1, s2, s3]]) \<and>
         run [Bound FullAdder [a, b, cin, cout, sm, s1, s2, s3]] s sm =
           ((s a \<noteq> s b) \<noteq> s cin) \<and>
         run [Bound FullAdder [a, b, cin, cout, sm, s1, s2, s3]] s cout =
           majority (s a) (s b) (s cin)"
proof -
  have "append_gate FullAdder (map (\<lambda>q. [q]) [a, b, cin, cout, sm, s1, s2, s3]) d =
      (Inr (), d @ [Bound FullAdder [a, b, cin, cout, sm, s1, s2, s3]])"
    using assms(1) by (intro append_gate_singletons) (simp_all add: FullAdder_def)
  moreover note run_FullAdder [OF assms(1-4)]
  ultimately show ?thesis
    using assms by auto
qed

theorem FullAdder_correct_witness:
  "run [Bound FullAdder fa_wires] (zero_state(fa_wires ! 0 := True, fa_wires ! 2 := True))
     (fa_wires ! 4) = False \<and>
   run [Bound FullAdder fa_wires] (zero_state(fa_wires ! 0 := True, fa_wires ! 2 := True))
     (fa_wires ! 3) = True"
  using FullAdder_correct [of "fa_wires ! 0" "fa_wires ! 1" "fa_wires ! 2" "fa_wires ! 3"
      "fa_wires ! 4" "fa_wires ! 5" "fa_wires ! 6" "fa_wires ! 7"
      "zero_state(fa_wires ! 0 := True, fa_wires ! 2 := True)" "[]"]
  by (simp add: fa_wires_def bits_def zero_state_def upt_rec majority_def)

text \<open>
  C10. The definition of FullAdder holds no reset, and neither does an instance of it.
  With the three scratch wires 0 on entry, executing an instance leaves
  scratch1 = a XOR b, scratch2 = a AND b and scratch3 = cin AND (a XOR b), whatever the
  sum and cout wires held.
\<close>

theorem FullAdder_scratch:
  assumes "distinct [a, b, cin, cout, sm, s1, s2, s3]"
    and "\<not> s s1" and "\<not> s s2" and "\<not> s s3"
  shows "(\<forall>i. RESET i \<notin> set (gate_definition FullAdder)) \<and>
         (\<forall>t. RESET t \<notin> set (decompose (Bound FullAdder [a, b, cin, cout, sm, s1, s2, s3]))) \<and>
         run [Bound FullAdder [a, b, cin, cout, sm, s1, s2, s3]] s s1 = (s a \<noteq> s b) \<and>
         run [Bound FullAdder [a, b, cin, cout, sm, s1, s2, s3]] s s2 = (s a \<and> s b) \<and>
         run [Bound FullAdder [a, b, cin, cout, sm, s1, s2, s3]] s s3 = (s cin \<and> (s a \<noteq> s b))"
proof -
  have "\<forall>i. RESET i \<notin> set (gate_definition FullAdder)"
    by (simp add: FullAdder_def)
  moreover have "\<forall>t. RESET t \<notin> set (decompose (Bound FullAdder [a, b, cin, cout, sm, s1, s2, s3]))"
    using decompose_FullAdder [of a b cin cout sm s1 s2 s3] by simp
  moreover note run_FullAdder [OF assms(1-4)]
  ultimately show ?thesis
    using assms by auto
qed

theorem FullAdder_scratch_witness:
  "run [Bound FullAdder fa_wires] (zero_state(fa_wires ! 0 := True, fa_wires ! 2 := True))
     (fa_wires ! 5) = True \<and>
   run [Bound FullAdder fa_wires] (zero_state(fa_wires ! 0 := True, fa_wires ! 2 := True))
     (fa_wires ! 6) = False \<and>
   run [Bound FullAdder fa_wires] (zero_state(fa_wires ! 0 := True, fa_wires ! 2 := True))
     (fa_wires ! 7) = True"
  using FullAdder_scratch [of "fa_wires ! 0" "fa_wires ! 1" "fa_wires ! 2" "fa_wires ! 3"
      "fa_wires ! 4" "fa_wires ! 5" "fa_wires ! 6" "fa_wires ! 7"
      "zero_state(fa_wires ! 0 := True, fa_wires ! 2 := True)"]
  by (simp add: fa_wires_def bits_def zero_state_def upt_rec)

text \<open>
  C7. Binding HalfAdder to a number of arguments other than 4, or FullAdder to a number
  other than 8, fails: the circuit library compares the number of arguments with the
  number of wires the gate declares and raises its \<open>CircuitError\<close> (the spec's
  ConfigurationError); nothing is appended.
\<close>

theorem gate_arity:
  "(length qargs \<noteq> 4 \<longrightarrow> append_gate HalfAdder qargs d = (Inl CircuitError, d)) \<and>
   (length qargs \<noteq> 8 \<longrightarrow> append_gate FullAdder qargs d = (Inl CircuitError, d))"
  by (simp add: append_gate_arity HalfAdder_def FullAdder_def)

theorem gate_arity_witness:
  "append_gate HalfAdder (map (\<lambda>q. [q]) (take 3 fa_wires)) [] = (Inl CircuitError, []) \<and>
   append_gate FullAdder (map (\<lambda>q. [q]) (take 4 fa_wires)) [] = (Inl CircuitError, [])"
  using gate_arity [of "map (\<lambda>q. [q]) (take 3 fa_wires)" "[]"]
    gate_arity [of "map (\<lambda>q. [q]) (take 4 fa_wires)" "[]"]
  by (simp add: fa_wires_def bits_def)

section \<open>The conditional negation of register B\<close>

text \<open>
  C4. With registers B, SB and ancilla of one circuit, SB and the ancilla register not
  empty, the first loop of the build runs without error, and on every basis state with
  the first ancilla wire (the shared scratch wire) 0 its operations leave each wire of B
  inverted exactly when SB[0] is set (B' = B XOR SB), SB[0] unchanged and the scratch
  wire 0; no other wire changes.
\<close>

theorem conditional_negate_stage:
  assumes "distinct (map name [qr_B, qr_SB, qr_ancilla])"
    and "0 < size_of qr_SB" and "0 < size_of qr_ancilla"
    and "\<not> s (Qubit qr_ancilla 0)"
  shows "fst (negate_stage qr_B qr_SB qr_ancilla []) = Inr () \<and>
         run (snd (negate_stage qr_B qr_SB qr_ancilla [])) s =
           xor_register qr_B (Qubit qr_SB 0) s \<and>
         (\<forall>i < size_of qr_B.
            run (snd (negate_stage qr_B qr_SB qr_ancilla [])) s (Qubit qr_B i) =
              (s (Qubit qr_B i) \<noteq> s (Qubit qr_SB 0))) \<and>
         run (snd (negate_stage qr_B qr_SB qr_ancilla [])) s (Qubit qr_SB 0) =
           s (Qubit qr_SB 0) \<and>
         \<not> run (snd (negate_stage qr_B qr_SB qr_ancilla [])) s (Qubit qr_ancilla 0)"
proof -
  from assms(1) have ne: "qr_B \<noteq> qr_ancilla" "qr_SB \<noteq> qr_ancilla" "qr_B \<noteq> qr_SB"
    by auto
  note st = negate_stage_names [OF assms(1-3), of "[]"]
  have r: "run (concat (map (negate_ops qr_B qr_SB qr_ancilla) [0..<size_of qr_B])) s =
      xor_register qr_B (Qubit qr_SB 0) s"
    using assms(1,4) by (rule run_negate_stage_names)
  show ?thesis
    using ne assms(4) by (auto simp add: st r xor_register_def set_bits)
qed

theorem conditional_negate_stage_witness:
  "reg_value
     (run (snd (negate_stage (QuantumRegister ''q1'' 3) (QuantumRegister ''q3'' 1)
                  (QuantumRegister ''q5'' 3) []))
        (zero_state(Qubit (QuantumRegister ''q1'' 3) 0 := True,
                    Qubit (QuantumRegister ''q3'' 1) 0 := True)))
     (QuantumRegister ''q1'' 3) = [False, True, True]"
  using conditional_negate_stage [of "QuantumRegister ''q1'' 3" "QuantumRegister ''q3'' 1"
      "QuantumRegister ''q5'' 3"
      "zero_state(Qubit (QuantumRegister ''q1'' 3) 0 := True,
                  Qubit (QuantumRegister ''q3'' 1) 0 := True)"]
  by (simp add: zero_state_def reg_value_def bits_def upt_rec xor_register_def)

text \<open>
  C6. Running the first loop twice in succession appends its operations twice; executed
  from a basis state with the scratch wire 0, register B is back to its original value
  after the second run, and the scratch wire is 0 after the first run and after the
  second.
\<close>

theorem conditional_negate_twice:
  assumes "distinct (map name [qr_B, qr_SB, qr_ancilla])"
    and "0 < size_of qr_SB" and "0 < size_of qr_ancilla"
    and "\<not> s (Qubit qr_ancilla 0)"
  shows "fst (bind_b (negate_stage qr_B qr_SB qr_ancilla)
                (\<lambda>_. negate_stage qr_B qr_SB qr_ancilla) []) = Inr () \<and>
         reg_value (run (snd (bind_b (negate_stage qr_B qr_SB qr_ancilla)
                (\<lambda>_. negate_stage qr_B qr_SB qr_ancilla) [])) s) qr_B = reg_value s qr_B \<and>
         \<not> run (snd (negate_stage qr_B qr_SB qr_ancilla [])) s (Qubit qr_ancilla 0) \<and>
         \<not> run (snd (bind_b (negate_stage qr_B qr_SB qr_ancilla)
                (\<lambda>_. negate_stage qr_B qr_SB qr_ancilla) [])) s (Qubit qr_ancilla 0)"
proof -
  let ?p = "concat (map (negate_ops qr_B qr_SB qr_ancilla) [0..<size_of qr_B])"
  from assms(1) have ne: "qr_B \<noteq> qr_ancilla" "qr_SB \<noteq> qr_ancilla" "qr_B \<noteq> qr_SB"
    by auto
  note st = negate_stage_names [OF assms(1-3)]
  have twice: "bind_b (negate_stage qr_B qr_SB qr_ancilla)
      (\<lambda>_. negate_stage qr_B qr_SB qr_ancilla) [] = (Inr (), ?p @ ?p)"
    by (simp add: bind_b_def st)
  have r1: "run ?p s = xor_register qr_B (Qubit qr_SB 0) s"
    using assms(1,4) by (rule run_negate_stage_names)
  have anc1: "\<not> run ?p s (Qubit qr_ancilla 0)"
    using ne assms(4) by (auto simp add: r1 xor_register_def set_bits)
  have anc1': "\<not> xor_register qr_B (Qubit qr_SB 0) s (Qubit qr_ancilla 0)"
    using anc1 by (simp add: r1)
  have r2: "run ?p (xor_register qr_B (Qubit qr_SB 0) s) =
      xor_register qr_B (Qubit qr_SB 0) (xor_register qr_B (Qubit qr_SB 0) s)"
    using assms(1) anc1' by (rule run_negate_stage_names)
  have "Qubit qr_SB 0 \<notin> set (bits qr_B)"
    using ne by (auto simp add: set_bits)
  then have "run (?p @ ?p) s = s"
    by (simp add: run_append r2 r1 xor_register_twice)
  with twice anc1 assms(4) show ?thesis by (simp add: st)
qed

theorem conditional_negate_twice_witness:
  "reg_value
     (run (snd (bind_b (negate_stage (QuantumRegister ''q1'' 3) (QuantumRegister ''q3'' 1)
                  (QuantumRegister ''q5'' 3))
             (\<lambda>_. negate_stage (QuantumRegister ''q1'' 3) (QuantumRegister ''q3'' 1)
                  (QuantumRegister ''q5'' 3)) []))
        (zero_state(Qubit (QuantumRegister ''q1'' 3) 0 := True,
                    Qubit (QuantumRegister ''q3'' 1) 0 := True)))
     (QuantumRegister ''q1'' 3) = [True, False, False]"
  using conditional_negate_twice [of "QuantumRegister ''q1'' 3" "QuantumRegister ''q3'' 1"
      "QuantumRegister ''q5'' 3"
      "zero_state(Qubit (QuantumRegister ''q1'' 3) 0 := True,
                  Qubit (QuantumRegister ''q3'' 1) 0 := True)"]
  by (simp add: zero_state_def reg_value_def bits_def upt_rec)

section \<open>Construction of the N-bit ALU\<close>

text \<open>
  C2, as stated, has the construction fail for every inconsistent choice of register
  widths. The source compares no widths: with all registers of width 1 and an ancilla
  register of width 4, the build succeeds.
\<close>

theorem wide_ancilla_counterexample:
  "size_of (QuantumRegister ''q5'' 4) \<noteq> 3 \<and>
   fst (build (NQubitALU_init (QuantumRegister ''q0'' 1) (QuantumRegister ''q1'' 1)
     (QuantumRegister ''q2'' 1) (QuantumRegister ''q3'' 1) (QuantumRegister ''q4'' 1)
     (QuantumRegister ''q5'' 4))) = Inr ()"
proof -
  have d: "distinct [QuantumRegister ''q0'' 1, QuantumRegister ''q1'' 1,
      QuantumRegister ''q2'' 1, QuantumRegister ''q3'' 1, QuantumRegister ''q4'' 1,
      QuantumRegister ''q5'' 4]"
    by simp
  show ?thesis
    using stages_ok_iff [OF d, of "[]"] by (simp add: build_init)
qed

text \<open>
  C2, amended. The construction of the N-bit ALU compares no register widths: its
  configuration check passes whatever the widths are (it only tests that the operand
  width is set). For six non-empty registers of one circuit the build
  succeeds exactly when the ancilla register is at least 3 wide, SB is exactly 1 wide
  and B, S and C are at least as wide as A, so registers wider than needed are accepted;
  raises IndexError exactly when the ancilla register is narrower than 3, or SB is 1
  wide and B, S or C is narrower than A (a wire is missing);
  raises CircuitError exactly when the ancilla register is at least 3 wide and SB is not
  1 wide (the first full adder cannot take the register SB as its carry-in).
  The error is not raised before the build: whenever the build fails, operations have
  been appended to the circuit by then.
\<close>

theorem build_width_conditions:
  assumes "distinct (map name [qr_A, qr_B, qr_S, qr_SB, qr_carry, qr_ancilla])"
    and "0 < size_of qr_A" "0 < size_of qr_B" "0 < size_of qr_S" "0 < size_of qr_SB"
      "0 < size_of qr_carry" "0 < size_of qr_ancilla"
  shows "check_configuration (NQubitALU_init qr_A qr_B qr_S qr_SB qr_carry qr_ancilla) True
           = Inr True \<and>
         (fst (build (NQubitALU_init qr_A qr_B qr_S qr_SB qr_carry qr_ancilla)) = Inr () \<longleftrightarrow>
            3 \<le> size_of qr_ancilla \<and> size_of qr_SB = 1 \<and> size_of qr_A \<le> size_of qr_B \<and>
            size_of qr_A \<le> size_of qr_S \<and> size_of qr_A \<le> size_of qr_carry) \<and>
         (fst (build (NQubitALU_init qr_A qr_B qr_S qr_SB qr_carry qr_ancilla)) = Inl IndexError \<longleftrightarrow>
            size_of qr_ancilla < 3 \<or>
            size_of qr_SB = 1 \<and> (size_of qr_B < size_of qr_A \<or> size_of qr_S < size_of qr_A \<or>
               size_of qr_carry < size_of qr_A)) \<and>
         (fst (build (NQubitALU_init qr_A qr_B qr_S qr_SB qr_carry qr_ancilla)) = Inl CircuitError \<longleftrightarrow>
            3 \<le> size_of qr_ancilla \<and> size_of qr_SB \<noteq> 1) \<and>
         (fst (build (NQubitALU_init qr_A qr_B qr_S qr_SB qr_carry qr_ancilla)) \<noteq> Inr () \<longrightarrow>
            data (snd (build (NQubitALU_init qr_A qr_B qr_S qr_SB qr_carry qr_ancilla))) \<noteq> [])"
proof -
  from assms(1) have d: "distinct [qr_A, qr_B, qr_S, qr_SB, qr_carry, qr_ancilla]"
    by (rule names_distinct6)
  let ?steps = "bind_b (negate_stage qr_B qr_SB qr_ancilla)
      (\<lambda>_. adder_stage qr_A qr_B qr_S qr_SB qr_carry qr_ancilla) []"
  let ?good = "3 \<le> size_of qr_ancilla \<and> size_of qr_SB = 1 \<and> size_of qr_A \<le> size_of qr_B \<and>
            size_of qr_A \<le> size_of qr_S \<and> size_of qr_A \<le> size_of qr_carry"
  have chk: "check_configuration (NQubitALU_init qr_A qr_B qr_S qr_SB qr_carry qr_ancilla) True
      = Inr True"
    by (simp add: check_configuration_def NQubitALU_init_def)
  have neg_ne: "concat (map (negate_ops qr_B qr_SB qr_ancilla) [0..<size_of qr_B]) \<noteq> []"
    using assms(3) by (simp add: upt_conv_Cons negate_ops_def)
  show ?thesis
  proof (cases ?good)
    case True
    then have "fst ?steps = Inr ()"
      using assms(2-7) by (simp add: stages_ok_iff [OF d])
    with True chk show ?thesis
      by (simp only: build_init fst_conv) auto
  next
    case False
    note stages_failed [OF d assms(2-7) False, of "[]"]
    with False chk neg_ne show ?thesis
      by (simp only: build_init fst_conv snd_conv) (auto split: if_splits)
  qed
qed

theorem build_width_conditions_witness:
  "fst (build (NQubitALU_init (QuantumRegister ''q0'' 1) (QuantumRegister ''q1'' 1) (QuantumRegister ''q2'' 1) (QuantumRegister ''q3'' 1) (QuantumRegister ''q4'' 1) (QuantumRegister ''q5'' 2))) = Inl IndexError \<and>
   fst (build (NQubitALU_init (QuantumRegister ''q0'' 1) (QuantumRegister ''q1'' 1) (QuantumRegister ''q2'' 1) (QuantumRegister ''q3'' 2) (QuantumRegister ''q4'' 1) (QuantumRegister ''q5'' 3))) = Inl CircuitError \<and>
   fst (build (NQubitALU_init (QuantumRegister ''q0'' 1) (QuantumRegister ''q1'' 1) (QuantumRegister ''q2'' 1) (QuantumRegister ''q3'' 1) (QuantumRegister ''q4'' 1) (QuantumRegister ''q5'' 4))) = Inr ()"
  using build_width_conditions [of "QuantumRegister ''q0'' 1" "QuantumRegister ''q1'' 1" "QuantumRegister ''q2'' 1" "QuantumRegister ''q3'' 1" "QuantumRegister ''q4'' 1" "QuantumRegister ''q5'' 2"]
    build_width_conditions [of "QuantumRegister ''q0'' 1" "QuantumRegister ''q1'' 1" "QuantumRegister ''q2'' 1" "QuantumRegister ''q3'' 2" "QuantumRegister ''q4'' 1" "QuantumRegister ''q5'' 3"]
    build_width_conditions [of "QuantumRegister ''q0'' 1" "QuantumRegister ''q1'' 1" "QuantumRegister ''q2'' 1" "QuantumRegister ''q3'' 1" "QuantumRegister ''q4'' 1" "QuantumRegister ''q5'' 4"]
  by simp

text \<open>
  C8, as stated, has a failed construction leave no operation behind. With all registers
  of width 1 and an ancilla register of width 2, the build raises IndexError at the
  third ancilla wire of the first full adder, and the four operations of the conditional
  negation appended before it are still in the circuit's data.
\<close>

theorem partial_program_counterexample:
  "fst (build (NQubitALU_init (QuantumRegister ''q0'' 1) (QuantumRegister ''q1'' 1)
     (QuantumRegister ''q2'' 1) (QuantumRegister ''q3'' 1) (QuantumRegister ''q4'' 1)
     (QuantumRegister ''q5'' 2))) = Inl IndexError \<and>
   data (snd (build (NQubitALU_init (QuantumRegister ''q0'' 1) (QuantumRegister ''q1'' 1)
     (QuantumRegister ''q2'' 1) (QuantumRegister ''q3'' 1) (QuantumRegister ''q4'' 1)
     (QuantumRegister ''q5'' 2)))) =
     [Prim (CX (Qubit (QuantumRegister ''q1'' 1) 0) (Qubit (QuantumRegister ''q5'' 2) 0)),
      Prim (CX (Qubit (QuantumRegister ''q3'' 1) 0) (Qubit (QuantumRegister ''q5'' 2) 0)),
      Prim (SWAP (Qubit (QuantumRegister ''q1'' 1) 0) (Qubit (QuantumRegister ''q5'' 2) 0)),
      Prim (RESET (Qubit (QuantumRegister ''q5'' 2) 0))]"
  by (simp add: build_def NQubitALU_init_def check_configuration_def negate_stage_def
      adder_stage_def negate_body_def adder_body_def build_simps)

text \<open>
  C8, amended. A failed construction is not rolled back: the operations appended before
  the failure stay in the circuit's data. A failed configuration check (operand width
  unset) leaves the circuit as it was. For six non-empty registers of one circuit, a
  build that succeeds leaves the four operations of the conditional negation for every
  wire of B, then a full adder and three resets for every wire of A; a build that fails
  leaves the same operations of the conditional negation, then the full adder and the
  three resets of every bit position before the failing one: of none when the ancilla
  register is narrower than 3 or SB is not 1 wide, else of the first min(|B|, |S|, |C|)
  positions, which are fewer than the wires of A.
\<close>

theorem failed_build_data:
  assumes "distinct (map name [qr_A, qr_B, qr_S, qr_SB, qr_carry, qr_ancilla])"
    and "0 < size_of qr_A" "0 < size_of qr_B" "0 < size_of qr_S" "0 < size_of qr_SB"
      "0 < size_of qr_carry" "0 < size_of qr_ancilla"
  shows "(alu_num_qubits alu = None \<longrightarrow> build alu = (Inl AttributeError, alu)) \<and>
         (fst (build (NQubitALU_init qr_A qr_B qr_S qr_SB qr_carry qr_ancilla)) = Inr () \<longrightarrow>
            data (snd (build (NQubitALU_init qr_A qr_B qr_S qr_SB qr_carry qr_ancilla))) =
              concat (map (negate_ops qr_B qr_SB qr_ancilla) [0..<size_of qr_B]) @
              concat (map (adder_ops qr_A qr_B qr_S qr_SB qr_carry qr_ancilla)
                [0..<size_of qr_A])) \<and>
         (fst (build (NQubitALU_init qr_A qr_B qr_S qr_SB qr_carry qr_ancilla)) \<noteq> Inr () \<longrightarrow>
            data (snd (build (NQubitALU_init qr_A qr_B qr_S qr_SB qr_carry qr_ancilla))) =
              concat (map (negate_ops qr_B qr_SB qr_ancilla) [0..<size_of qr_B]) @
              concat (map (adder_ops qr_A qr_B qr_S qr_SB qr_carry qr_ancilla)
                [0..<(if size_of qr_ancilla < 3 \<or> size_of qr_SB \<noteq> 1 then 0
                      else min (size_of qr_B) (min (size_of qr_S) (size_of qr_carry)))]) \<and>
            (if size_of qr_ancilla < 3 \<or> size_of qr_SB \<noteq> 1 then 0
             else min (size_of qr_B) (min (size_of qr_S) (size_of qr_carry))) < size_of qr_A)"
proof -
  from assms(1) have d: "distinct [qr_A, qr_B, qr_S, qr_SB, qr_carry, qr_ancilla]"
    by (rule names_distinct6)
  let ?steps = "bind_b (negate_stage qr_B qr_SB qr_ancilla)
      (\<lambda>_. adder_stage qr_A qr_B qr_S qr_SB qr_carry qr_ancilla) []"
  let ?good = "3 \<le> size_of qr_ancilla \<and> size_of qr_SB = 1 \<and> size_of qr_A \<le> size_of qr_B \<and>
            size_of qr_A \<le> size_of qr_S \<and> size_of qr_A \<le> size_of qr_carry"
  have attr: "alu_num_qubits alu = None \<longrightarrow> build alu = (Inl AttributeError, alu)"
    by (simp add: build_def check_configuration_def)
  show ?thesis
  proof (cases ?good)
    case True
    then have ok: "fst ?steps = Inr ()"
      using assms(2-7) by (simp add: stages_ok_iff [OF d])
    note stages_ok_data [OF d ok]
    with attr ok show ?thesis
      by (simp only: build_init fst_conv snd_conv) simp
  next
    case False
    note stages_failed [OF d assms(2-7) False, of "[]"]
    with False attr assms(2) show ?thesis
      by (simp only: build_init fst_conv snd_conv) (auto split: if_splits)
  qed
qed

theorem failed_build_data_witness:
  "build ((NQubitALU_init (QuantumRegister ''q0'' 2) (QuantumRegister ''q1'' 1) (QuantumRegister ''q2'' 2) (QuantumRegister ''q3'' 1) (QuantumRegister ''q4'' 2) (QuantumRegister ''q5'' 3))\<lparr>alu_num_qubits := None\<rparr>) =
     (Inl AttributeError,
      (NQubitALU_init (QuantumRegister ''q0'' 2) (QuantumRegister ''q1'' 1) (QuantumRegister ''q2'' 2) (QuantumRegister ''q3'' 1) (QuantumRegister ''q4'' 2) (QuantumRegister ''q5'' 3))\<lparr>alu_num_qubits := None\<rparr>) \<and>
   data (snd (build (NQubitALU_init (QuantumRegister ''q0'' 2) (QuantumRegister ''q1'' 1) (QuantumRegister ''q2'' 2) (QuantumRegister ''q3'' 1) (QuantumRegister ''q4'' 2) (QuantumRegister ''q5'' 3)))) =
     negate_ops (QuantumRegister ''q1'' 1) (QuantumRegister ''q3'' 1) (QuantumRegister ''q5'' 3) 0 @
     adder_ops (QuantumRegister ''q0'' 2) (QuantumRegister ''q1'' 1) (QuantumRegister ''q2'' 2) (QuantumRegister ''q3'' 1) (QuantumRegister ''q4'' 2) (QuantumRegister ''q5'' 3) 0"
proof -
  have d: "distinct [QuantumRegister ''q0'' 2, QuantumRegister ''q1'' 1, QuantumRegister ''q2'' 2, QuantumRegister ''q3'' 1, QuantumRegister ''q4'' 2, QuantumRegister ''q5'' 3]"
    by simp
  have f: "fst (build (NQubitALU_init (QuantumRegister ''q0'' 2) (QuantumRegister ''q1'' 1) (QuantumRegister ''q2'' 2) (QuantumRegister ''q3'' 1) (QuantumRegister ''q4'' 2) (QuantumRegister ''q5'' 3))) \<noteq> Inr ()"
    using stages_ok_iff [OF d, of "[]"] by (simp add: build_init)
  show ?thesis
    using f failed_build_data [of "QuantumRegister ''q0'' 2" "QuantumRegister ''q1'' 1" "QuantumRegister ''q2'' 2" "QuantumRegister ''q3'' 1" "QuantumRegister ''q4'' 2" "QuantumRegister ''q5'' 3"
      "(NQubitALU_init (QuantumRegister ''q0'' 2) (QuantumRegister ''q1'' 1) (QuantumRegister ''q2'' 2) (QuantumRegister ''q3'' 1) (QuantumRegister ''q4'' 2) (QuantumRegister ''q5'' 3))\<lparr>alu_num_qubits := None\<rparr>"]
    by simp
qed

text \<open>
  C9. For six registers of one circuit and a build that succeeds, no operation of the
  program (full adders expanded into their operations) has a wire of register A or of
  register SB as inversion target, swap operand or reset target, and executing the
  program from any basis state leaves every such wire as it was.
\<close>

theorem controls_unchanged:
  assumes "distinct (map name [qr_A, qr_B, qr_S, qr_SB, qr_carry, qr_ancilla])"
    and "fst (build (NQubitALU_init qr_A qr_B qr_S qr_SB qr_carry qr_ancilla)) = Inr ()"
    and "q \<in> set (bits qr_A) \<union> set (bits qr_SB)"
  shows "(\<forall>g \<in> set (flatten (data (snd (build
             (NQubitALU_init qr_A qr_B qr_S qr_SB qr_carry qr_ancilla))))). q \<notin> targets g) \<and>
         (\<forall>s. run (data (snd (build
             (NQubitALU_init qr_A qr_B qr_S qr_SB qr_carry qr_ancilla)))) s q = s q)"
proof -
  let ?p = "concat (map (negate_ops qr_B qr_SB qr_ancilla) [0..<size_of qr_B]) @
            concat (map (adder_ops qr_A qr_B qr_S qr_SB qr_carry qr_ancilla) [0..<size_of qr_A])"
  from assms(1) have d: "distinct [qr_A, qr_B, qr_S, qr_SB, qr_carry, qr_ancilla]"
    by (rule names_distinct6)
  from assms(2) have ok: "fst (bind_b (negate_stage qr_B qr_SB qr_ancilla)
      (\<lambda>_. adder_stage qr_A qr_B qr_S qr_SB qr_carry qr_ancilla) []) = Inr ()"
    by (simp only: build_init fst_conv)
  have p: "data (snd (build (NQubitALU_init qr_A qr_B qr_S qr_SB qr_carry qr_ancilla))) = ?p"
    using stages_ok_data [OF d ok] by (simp add: build_init)
  from assms(3) obtain r j where q: "q = Qubit r j" and r: "r = qr_A \<or> r = qr_SB"
    by (auto simp add: set_bits)
  have r': "r \<notin> {qr_B, qr_S, qr_carry, qr_ancilla}"
    using r d by auto
  have t: "q \<notin> targets g" if "g \<in> set (flatten ?p)" for g
    using program_targets [OF that, of r j] r' q by blast
  then have "run ?p s q = s q" for s
    unfolding run_def by (intro run_ops_frame) simp
  with t p show ?thesis by simp
qed

theorem controls_unchanged_witness:
  "run (data (snd (build main_alu))) (main_initial_state True) (Qubit (registerSB main_alu) 0) =
     True \<and>
   run (data (snd (build main_alu))) (main_initial_state True) (Qubit (registerA main_alu) 0) =
     True"
proof -
  have ok: "fst (build main_alu) = Inr ()" by (simp add: main_build)
  have a: "Qubit (registerA main_alu) 0 \<in> set (bits (registerA main_alu)) \<union> set (bits (registerSB main_alu))"
    and sb: "Qubit (registerSB main_alu) 0 \<in> set (bits (registerA main_alu)) \<union> set (bits (registerSB main_alu))"
    by (simp_all add: main_alu_def main_registers_def NQubitALU_init_def set_bits)
  show ?thesis
    using ok a sb
      controls_unchanged [of "registerA main_alu" "registerB main_alu" "registerS main_alu"
        "registerSB main_alu" "registerC main_alu" "registerAncilla main_alu"
        "Qubit (registerSB main_alu) 0"]
      controls_unchanged [of "registerA main_alu" "registerB main_alu" "registerS main_alu"
        "registerSB main_alu" "registerC main_alu" "registerAncilla main_alu"
        "Qubit (registerA main_alu) 0"]
    by (simp add: main_alu_def main_registers_def NQubitALU_init_def main_initial_state_def)
qed

section \<open>The worked example of the driver\<close>

text \<open>
  C3, as stated, gives S = 111 and C[2] = 0 for SB = 1. The build binds SB as the
  carry-in of bit 0, so with SB = 1 the adder computes 001 + 110 + 1: S is not 111 and
  C[2] is not 0.
\<close>

theorem main_subtract_counterexample:
  "reg_value (run (data (snd (build main_alu))) (main_initial_state True)) (registerS main_alu)
     \<noteq> [True, True, True] \<and>
   run (data (snd (build main_alu))) (main_initial_state True) (Qubit (registerC main_alu) 2)
     \<noteq> False"
  by (simp add: main_build) (simp add: main_eval)

text \<open>
  C3, amended. For the 3-bit ALU of the driver, with A = 001 (A[0] = 1), B = 001 and all
  other wires 0 (registers written least significant wire first below): the build
  succeeds; with SB = 0 the program leaves S = 010 and C[2] = 0; with SB = 1 it leaves
  B negated to B' = 110 and, SB being the carry-in of bit 0 as well, S = (001 + 110 + 1)
  mod 8 = 000 and C[2] = 1.
\<close>

theorem main_example:
  "fst (build main_alu) = Inr () \<and>
   reg_value (main_initial_state False) (registerA main_alu) = [True, False, False] \<and>
   reg_value (main_initial_state False) (registerB main_alu) = [True, False, False] \<and>
   reg_value (run (data (snd (build main_alu))) (main_initial_state False)) (registerS main_alu)
     = [False, True, False] \<and>
   run (data (snd (build main_alu))) (main_initial_state False) (Qubit (registerC main_alu) 2)
     = False \<and>
   reg_value (main_initial_state True) (registerA main_alu) = [True, False, False] \<and>
   reg_value (main_initial_state True) (registerB main_alu) = [True, False, False] \<and>
   reg_value (run (data (snd (build main_alu))) (main_initial_state True)) (registerB main_alu)
     = [False, True, True] \<and>
   reg_value (run (data (snd (build main_alu))) (main_initial_state True)) (registerS main_alu)
     = [False, False, False] \<and>
   run (data (snd (build main_alu))) (main_initial_state True) (Qubit (registerC main_alu) 2)
     = True"
  by (simp add: main_build) (simp add: main_eval)

end
